theory Spec2Isabelle
  imports Complex_Main
begin

unbundle bit_operations_syntax

section \<open>The transformer worker: propagation table, chunker, vectorizer, diagnostics\<close>

text \<open>
  A shallow embedding of \<^verbatim>\<open>transformer-worker.js\<close>. JavaScript numbers that hold
  table signs, symbols and sizes are integers (\<open>int\<close>); numbers that hold embeddings,
  similarities and probabilities are modelled as exact reals (\<open>real\<close>), so rounding
  of IEEE doubles is not part of the model. \<^verbatim>\<open>null\<close> and \<^verbatim>\<open>undefined\<close> are
  \<open>None\<close>. Every \<^verbatim>\<open>throw\<close> is an \<open>Inl\<close> of the type \<open>error\<close>.
\<close>

datatype error =
    EmbedderNotInitialized
      \<comment> \<open>\<^verbatim>\<open>Error("Embedder not initialized")\<close>\<close>
  | NoValidChunks
      \<comment> \<open>\<^verbatim>\<open>Error("No valid chunks to embed")\<close>\<close>
  | EmbedderFailure
      \<comment> \<open>an exception raised by the external embedder and not caught\<close>
  | InvalidDimension int
      \<comment> \<open>\<^verbatim>\<open>Error(`Invalid dimension in chain: ${nextDim}`)\<close>\<close>
  | InvalidMultiplication int int
      \<comment> \<open>\<^verbatim>\<open>Error(`Invalid octonion multiplication: e${currentDim} * e${nextDim}`)\<close>\<close>
  | TypeError
      \<comment> \<open>the engine's own exception for a property read on \<^verbatim>\<open>null\<close> or \<^verbatim>\<open>undefined\<close>,
          or a call of \<^verbatim>\<open>null\<close>\<close>
  | LabelsNotSeven
      \<comment> \<open>\<^verbatim>\<open>Error("Labels must be array of exactly 7 strings")\<close>\<close>

subsection \<open>The propagation table\<close>

type_synonym entry = "int \<times> int"
  \<comment> \<open>\<^verbatim>\<open>[sign, index]\<close>\<close>

type_synonym table = "entry option list option list"

definition octTable :: table where
  "octTable =
    [ None,
      Some [None, Some (-1,0), Some (1,4), Some (1,7), Some (-1,2), Some (1,6), Some (-1,5), Some (-1,3)],
      Some [None, Some (-1,4), Some (-1,0), Some (1,5), Some (1,1), Some (-1,3), Some (1,7), Some (-1,6)],
      Some [None, Some (-1,7), Some (-1,5), Some (-1,0), Some (1,6), Some (1,2), Some (-1,4), Some (1,1)],
      Some [None, Some (1,2), Some (-1,1), Some (-1,6), Some (-1,0), Some (1,7), Some (1,3), Some (-1,5)],
      Some [None, Some (-1,6), Some (1,3), Some (-1,2), Some (-1,7), Some (-1,0), Some (1,1), Some (1,4)],
      Some [None, Some (1,5), Some (-1,7), Some (1,4), Some (-1,3), Some (-1,1), Some (-1,0), Some (1,2)],
      Some [None, Some (1,3), Some (1,6), Some (-1,1), Some (1,5), Some (-1,4), Some (-1,2), Some (-1,0)] ]"

text \<open>
  \<^verbatim>\<open>xs[i]\<close> on a JavaScript array: an index outside the array reads \<^verbatim>\<open>undefined\<close>.
\<close>

definition js_index :: "'a option list \<Rightarrow> int \<Rightarrow> 'a option" where
  "js_index xs i = (if 0 \<le> i \<and> i < int (length xs) then xs ! nat i else None)"

text \<open>
  \<^verbatim>\<open>t[i][j]\<close>: reading \<^verbatim>\<open>[j]\<close> of a row that is \<^verbatim>\<open>null\<close> or \<^verbatim>\<open>undefined\<close> throws;
  a missing cell of an existing row reads as \<^verbatim>\<open>undefined\<close> (\<open>Inr None\<close>).
\<close>

definition cell :: "table \<Rightarrow> int \<Rightarrow> int \<Rightarrow> error + entry option" where
  "cell t i j = (case js_index t i of None \<Rightarrow> Inl TypeError | Some row \<Rightarrow> Inr (js_index row j))"

subsection \<open>verifyFanoStructure\<close>

datatype warning =
    AntiCommutativityFails int int
      \<comment> \<open>\<^verbatim>\<open>`Anti-commutativity fails: e${i}*e${j} \<noteq> -e${j}*e${i}`\<close>\<close>
  | FanoCycleInconsistent int int int
      \<comment> \<open>\<^verbatim>\<open>`Fano cycle [${a},${b},${c}] inconsistent`\<close>\<close>

type_synonym fano_check = "bool \<times> warning list"
  \<comment> \<open>\<^verbatim>\<open>{ valid, warnings }\<close>\<close>

text \<open>The body of the two nested loops over \<open>i\<close> and \<open>j = i + 1 .. 7\<close>.\<close>

definition anti_step :: "table \<Rightarrow> int \<times> int \<Rightarrow> fano_check \<Rightarrow> error + fano_check" where
  "anti_step t p acc =
    (case cell t (fst p) (snd p) of Inl e \<Rightarrow> Inl e | Inr ij \<Rightarrow>
     (case cell t (snd p) (fst p) of Inl e \<Rightarrow> Inl e | Inr ji \<Rightarrow>
     (case (ij, ji) of
        (Some x, Some y) \<Rightarrow>
          (if snd x \<noteq> snd y \<or> fst x \<noteq> - fst y
           then Inr (False, snd acc @ [AntiCommutativityFails (fst p) (snd p)])
           else Inr acc)
      | _ \<Rightarrow> Inr acc)))"

fun anti_loop :: "table \<Rightarrow> (int \<times> int) list \<Rightarrow> fano_check \<Rightarrow> error + fano_check" where
  "anti_loop t [] acc = Inr acc"
| "anti_loop t (p # ps) acc =
    (case anti_step t p acc of Inl e \<Rightarrow> Inl e | Inr acc' \<Rightarrow> anti_loop t ps acc')"

definition anti_pairs :: "(int \<times> int) list" where
  "anti_pairs = concat (map (\<lambda>i. map (\<lambda>j. (i, j)) [i + 1 ..7]) [1..7])"

definition fanoCycles :: "(int \<times> int \<times> int) list" where
  "fanoCycles = [(1,2,4), (2,3,5), (3,4,6), (4,5,7), (5,6,1), (6,7,2), (7,1,3)]"

text \<open>The body of the loop over \<open>fanoCycles\<close>.\<close>

definition cycle_step :: "table \<Rightarrow> int \<times> int \<times> int \<Rightarrow> fano_check \<Rightarrow> error + fano_check" where
  "cycle_step t cyc acc =
    (case cyc of (a, b, c) \<Rightarrow>
     (case cell t a b of Inl e \<Rightarrow> Inl e | Inr ab \<Rightarrow>
     (case cell t b c of Inl e \<Rightarrow> Inl e | Inr bc \<Rightarrow>
     (case cell t c a of Inl e \<Rightarrow> Inl e | Inr ca \<Rightarrow>
     (case (ab, bc, ca) of
        (Some x, Some y, Some z) \<Rightarrow>
          (let product = fst x * fst y * fst z in
           if product \<noteq> -1 \<and> product \<noteq> 1
           then Inr (False, snd acc @ [FanoCycleInconsistent a b c])
           else Inr acc)
      | _ \<Rightarrow> Inr acc)))))"

fun cycle_loop :: "table \<Rightarrow> (int \<times> int \<times> int) list \<Rightarrow> fano_check \<Rightarrow> error + fano_check" where
  "cycle_loop t [] acc = Inr acc"
| "cycle_loop t (cyc # cycs) acc =
    (case cycle_step t cyc acc of Inl e \<Rightarrow> Inl e | Inr acc' \<Rightarrow> cycle_loop t cycs acc')"

text \<open>
  \<^verbatim>\<open>verifyFanoStructure\<close> reads the global table; the table is a parameter here, and
  the worker's call is \<open>verifyFanoStructure octTable\<close>.
\<close>

definition verifyFanoStructure :: "table \<Rightarrow> error + fano_check" where
  "verifyFanoStructure t =
    (case anti_loop t anti_pairs (True, []) of Inl e \<Rightarrow> Inl e
     | Inr acc \<Rightarrow> cycle_loop t fanoCycles acc)"

subsection \<open>propagateNarrative\<close>

record step =
  step_no :: nat
  step_sign :: int
  step_dimension :: int

record propagation =
  finalSign :: int
  finalDimension :: int
  finalLabel :: string
  steps :: "step list option"

text \<open>
  The loop over the chain. \<open>acc\<close> is \<^verbatim>\<open>accumulator = [sign, dimension]\<close>, \<open>i\<close> the loop
  index, \<open>trace\<close> the \<^verbatim>\<open>steps\<close> array (its display strings are left out).
\<close>

fun propagate_loop ::
  "bool \<Rightarrow> nat \<Rightarrow> int list \<Rightarrow> int \<times> int \<Rightarrow> step list \<Rightarrow> error + ((int \<times> int) \<times> step list)" where
  "propagate_loop verbose i [] acc trace = Inr (acc, trace)"
| "propagate_loop verbose i (nextDim # rest) acc trace =
    (if nextDim < 1 \<or> nextDim > 7 then Inl (InvalidDimension nextDim)
     else
       (let currentDim = snd acc; currentSign = fst acc in
        (case cell octTable currentDim nextDim of
           Inl e \<Rightarrow> Inl e
         | Inr None \<Rightarrow> Inl (InvalidMultiplication currentDim nextDim)
         | Inr (Some product) \<Rightarrow>
             (let acc' = (currentSign * fst product, snd product) in
              propagate_loop verbose (i + 1) rest acc'
                (if verbose
                 then trace @ [\<lparr>step_no = i + 1, step_sign = fst acc', step_dimension = snd acc'\<rparr>]
                 else trace)))))"

text \<open>\<^verbatim>\<open>currentLabels[d - 1] || 'Real'\<close>: a missing or empty label reads as \<^verbatim>\<open>'Real'\<close>.\<close>

definition label_or_Real :: "string list \<Rightarrow> int \<Rightarrow> string" where
  "label_or_Real labels d =
    (case js_index (map Some labels) (d - 1) of
       None \<Rightarrow> ''Real''
     | Some l \<Rightarrow> if l = [] then ''Real'' else l)"

definition propagateNarrative ::
  "string list \<Rightarrow> int \<Rightarrow> int list \<Rightarrow> bool \<Rightarrow> error + propagation" where
  "propagateNarrative labels startDim chain verbose =
    (case propagate_loop verbose 0 chain (1, startDim)
            (if verbose then [\<lparr>step_no = 0, step_sign = 1, step_dimension = startDim\<rparr>] else [])
     of Inl e \<Rightarrow> Inl e
      | Inr (acc, trace) \<Rightarrow>
          Inr \<lparr>finalSign = fst acc, finalDimension = snd acc,
               finalLabel = label_or_Real labels (snd acc),
               steps = (if verbose then Some trace else None)\<rparr>)"

subsection \<open>Strings\<close>

text \<open>
  A string is the list of its code units; \<^verbatim>\<open>.length\<close> is \<open>length\<close>. The three
  sentence terminators of the pattern \<^verbatim>\<open>/[^.!?]+[.!?]+/g\<close>:
\<close>

definition is_terminator :: "char \<Rightarrow> bool" where
  "is_terminator c = (c = CHR ''.'' \<or> c = CHR ''!'' \<or> c = CHR ''?'')"

text \<open>
  \<^verbatim>\<open>text.match(/[^.!?]+[.!?]+/g)\<close>: the matches from left to right. A match cannot
  start at a terminator, so terminators in front are passed over; then the longest run of
  non-terminators and the longest run of terminators after it are taken, both non-empty.
  A run of non-terminators that reaches the end of the text matches nothing, and neither
  does any later position. \<^verbatim>\<open>null\<close> (no match at all) is the empty list here.
\<close>

function match_sentences :: "string \<Rightarrow> string list" where
  "match_sentences s =
    (let s1 = dropWhile is_terminator s;
         body = takeWhile (\<lambda>c. \<not> is_terminator c) s1;
         rest = dropWhile (\<lambda>c. \<not> is_terminator c) s1;
         marks = takeWhile is_terminator rest;
         rest' = dropWhile is_terminator rest
     in if body = [] \<or> marks = [] then [] else (body @ marks) # match_sentences rest')"
  by pat_completeness auto
termination
proof (relation "measure length")
  show "wf (measure length)" by simp
next
  fix s s1 body rest marks rest' :: string
  assume s1: "s1 = dropWhile is_terminator s"
    and body: "body = takeWhile (\<lambda>c. \<not> is_terminator c) s1"
    and rest: "rest = dropWhile (\<lambda>c. \<not> is_terminator c) s1"
    and rest': "rest' = dropWhile is_terminator rest"
    and ne: "\<not> (body = [] \<or> marks = [])"
  have "length s1 = length body + length rest"
    unfolding body rest by (metis length_append takeWhile_dropWhile_id)
  moreover have "0 < length body" using ne by simp
  moreover have "length rest' \<le> length rest" unfolding rest' by (rule length_dropWhile_le)
  moreover have "length s1 \<le> length s" unfolding s1 by (rule length_dropWhile_le)
  ultimately show "(rest', s) \<in> measure length" by (cases body) simp_all
qed

text \<open>\<^verbatim>\<open>text.match(...) || [text]\<close>\<close>

definition sentences_of :: "string \<Rightarrow> string list" where
  "sentences_of text = (let m = match_sentences text in if m = [] then [text] else m)"

text \<open>
  \<^verbatim>\<open>String.prototype.trim\<close>: white space and line terminators below code unit 256.
\<close>

definition is_space :: "char \<Rightarrow> bool" where
  "is_space c = (of_char c \<in> {9, 10, 11, 12, 13, 32, 160 :: nat})"

definition trim :: "string \<Rightarrow> string" where
  "trim s = rev (dropWhile is_space (rev (dropWhile is_space s)))"

subsection \<open>The chunker of classifyText\<close>

record options =
  maxChunkSize :: "int option"
  minChunkSize :: "int option"

text \<open>\<^verbatim>\<open>x || d\<close> on an optional number: absent and \<open>0\<close> both give the default.\<close>

definition or_default :: "int option \<Rightarrow> int \<Rightarrow> int" where
  "or_default x d = (case x of None \<Rightarrow> d | Some v \<Rightarrow> if v = 0 then d else v)"

text \<open>
  The loop over the sentences, with \<^verbatim>\<open>currentChunk\<close> and the array \<^verbatim>\<open>chunks\<close>; at the
  end of the sentences, \<^verbatim>\<open>if (currentChunk) chunks.push(currentChunk)\<close>.
\<close>

fun chunk_loop :: "int \<Rightarrow> int \<Rightarrow> string list \<Rightarrow> string \<Rightarrow> string list \<Rightarrow> string list" where
  "chunk_loop maxC minC [] currentChunk chunks =
    (if currentChunk \<noteq> [] then chunks @ [currentChunk] else chunks)"
| "chunk_loop maxC minC (sentence # rest) currentChunk chunks =
    (if int (length (currentChunk @ sentence)) > maxC then
       (if int (length currentChunk) \<ge> minC
        then chunk_loop maxC minC rest sentence (chunks @ [currentChunk])
        else chunk_loop maxC minC rest (currentChunk @ sentence) chunks)
     else chunk_loop maxC minC rest (currentChunk @ sentence) chunks)"

definition chunker :: "options \<Rightarrow> string \<Rightarrow> string list" where
  "chunker opts text =
    chunk_loop (or_default (maxChunkSize opts) 512) (or_default (minChunkSize opts) 100)
      (sentences_of text) [] []"

subsection \<open>Embeddings and the worker's state\<close>

text \<open>
  The external embedder maps a string to its vector, or throws (\<open>None\<close>). The vectors
  of the model in use have 384 components.
\<close>

type_synonym embedder = "string \<Rightarrow> real list option"

record worker =
  embedder :: "embedder option"
  currentLabels :: "string list"
  prototypes :: "string list"
  prototypeEmbeddings :: "real list list option"

definition initial_worker :: worker where
  "initial_worker =
    \<lparr> embedder = None,
      currentLabels = [''Root'', ''Sacral'', ''Solar-Plexus'', ''Heart'', ''Throat'', ''Third-Eye'', ''Crown''],
      prototypes =
        [ [],
          ''A narrative of survival, fear, security, tribal identity, grounding in the material world.'',
          ''Stories of pleasure, desire, creativity, emotional flow, relationships, and sensual abundance.'',
          ''Themes of personal power, will, confidence, ego, anger, control, and fiery ambition.'',
          ''Tales of love, compassion, connection, forgiveness, empathy, and heart-centered unity.'',
          ''Expression of truth, voice, communication, authenticity, clarity, and creative speech.'',
          ''Intuitive vision, insight, awareness, discernment, third-eye perception, and inner knowing.'',
          ''Transcendence, divine unity, surrender, cosmic consciousness, crown awakening, and oneness.'' ],
      prototypeEmbeddings = None \<rparr>"

text \<open>
  The loop of \<^verbatim>\<open>updatePrototypeEmbeddings\<close> over \<^verbatim>\<open>prototypes[1..]\<close>. The array
  \<^verbatim>\<open>prototypeEmbeddings\<close> is the global one, so what was pushed before a failure stays.
  Calling an embedder that is still \<^verbatim>\<open>null\<close> throws.
\<close>

fun embed_prototypes ::
  "embedder option \<Rightarrow> string list \<Rightarrow> real list list \<Rightarrow> (error + unit) \<times> real list list" where
  "embed_prototypes emb [] acc = (Inr (), acc)"
| "embed_prototypes emb (p # ps) acc =
    (case emb of
       None \<Rightarrow> (Inl TypeError, acc)
     | Some f \<Rightarrow>
        (case f p of
           None \<Rightarrow> (Inl EmbedderFailure, acc)
         | Some v \<Rightarrow> embed_prototypes emb ps (acc @ [v])))"

definition updatePrototypeEmbeddings :: "worker \<Rightarrow> (error + unit) \<times> worker" where
  "updatePrototypeEmbeddings w =
    (case embed_prototypes (embedder w) (drop 1 (prototypes w)) [] of
       (r, embs) \<Rightarrow> (r, w\<lparr>prototypeEmbeddings := Some embs\<rparr>))"

text \<open>
  \<^verbatim>\<open>dot / (Math.sqrt(magA) * Math.sqrt(magB)) || 0\<close>. The loop runs over \<^verbatim>\<open>a.length\<close>;
  a shorter \<open>b\<close> reads \<^verbatim>\<open>undefined\<close>, the quotient is \<^verbatim>\<open>NaN\<close> and the result \<open>0\<close>, as it
  is for a zero denominator.
\<close>

definition cosineSimilarity :: "real list \<Rightarrow> real list \<Rightarrow> real" where
  "cosineSimilarity a b =
    (if length b < length a then 0
     else
       (let dot = foldl (\<lambda>acc i. acc + a ! i * b ! i) 0 [0..<length a];
            magA = foldl (\<lambda>acc i. acc + a ! i * a ! i) 0 [0..<length a];
            magB = foldl (\<lambda>acc i. acc + b ! i * b ! i) 0 [0..<length a];
            d = sqrt magA * sqrt magB
        in if d = 0 then 0 else dot / d))"

subsection \<open>classifyText\<close>

text \<open>
  \<^verbatim>\<open>for (let i = 0; i < 384; i++) avgEmbedding[i] += embedding[i]\<close>. The embedder's
  vectors have 384 components; on a shorter one JavaScript would add \<^verbatim>\<open>undefined\<close> and
  store \<^verbatim>\<open>NaN\<close>, for which the reals have no value.
\<close>

definition add_embedding :: "real list \<Rightarrow> real list \<Rightarrow> real list" where
  "add_embedding avg embedding = map (\<lambda>i. avg ! i + embedding ! i) [0..<384]"

text \<open>
  The loop over the chunks. \<open>avg\<close> is the running sum in \<^verbatim>\<open>avgEmbedding\<close>, \<open>warned\<close>
  the chunks for which \<^verbatim>\<open>console.warn("Chunk embedding failed:", e)\<close> was called.
\<close>

fun embed_chunks ::
  "embedder \<Rightarrow> string list \<Rightarrow> real list \<Rightarrow> nat \<Rightarrow> string list \<Rightarrow> real list \<times> nat \<times> string list" where
  "embed_chunks emb [] avg validChunks warned = (avg, validChunks, warned)"
| "embed_chunks emb (chunk # rest) avg validChunks warned =
    (if length (trim chunk) < 10 then embed_chunks emb rest avg validChunks warned
     else
       (case emb (trim chunk) of
          None \<Rightarrow> embed_chunks emb rest avg validChunks (warned @ [chunk])
        | Some embedding \<Rightarrow>
            embed_chunks emb rest (add_embedding avg embedding) (validChunks + 1) warned))"

text \<open>
  \<^verbatim>\<open>expScores\<close>, \<^verbatim>\<open>sumExp\<close> and \<^verbatim>\<open>vector\<close>: the three lines after the similarities.
\<close>

definition softmax_vector :: "real list \<Rightarrow> real list" where
  "softmax_vector rawVector =
    (let expScores = map (\<lambda>x. exp (max 0 x * 5)) rawVector;
         sumExp = foldl (\<lambda>a b. a + b) 0 expScores
     in map (\<lambda>x. x / sumExp) expScores)"

text \<open>\<^verbatim>\<open>Math.max(...xs)\<close>; of no arguments it is \<^verbatim>\<open>-Infinity\<close>, which is \<open>None\<close> here.\<close>

definition Math_max :: "real list \<Rightarrow> real option" where
  "Math_max xs = (case xs of [] \<Rightarrow> None | x # ys \<Rightarrow> Some (foldl max x ys))"

fun indexOf :: "real list \<Rightarrow> real \<Rightarrow> int" where
  "indexOf [] x = -1"
| "indexOf (y # ys) x =
    (if y = x then 0 else (let r = indexOf ys x in if r = -1 then -1 else r + 1))"

text \<open>
  A read of a number array; \<^verbatim>\<open>undefined\<close> outside it (\<open>None\<close>), which makes the
  arithmetic on it \<^verbatim>\<open>NaN\<close> and every comparison with it false.
\<close>

definition num_at :: "real list \<Rightarrow> nat \<Rightarrow> real option" where
  "num_at xs i = (if i < length xs then Some (xs ! i) else None)"

definition computeCohomologyClass :: "real list \<Rightarrow> nat" where
  "computeCohomologyClass vector =
    (let threshold = 1 / 10;
         signChanges =
           foldl (\<lambda>sc i.
             (case (num_at vector ((i + 1) mod 7), num_at vector i) of
                (Some a, Some b) \<Rightarrow>
                  (let diff = a - b in
                   if \<bar>diff\<bar> > threshold then sc + (if diff > 0 then 1 else 0) else sc)
              | _ \<Rightarrow> sc)) (0::nat) [0..<7]
     in signChanges mod 2)"

record cover =
  cover_mask :: nat
  cover_indices :: "nat list"
  cover_sum :: real
  cover_labels :: "string option list"

text \<open>The positions \<open>i < 7\<close> with \<^verbatim>\<open>mask & (1 << i)\<close> set.\<close>

definition mask_bits :: "nat \<Rightarrow> nat list" where
  "mask_bits m = filter (\<lambda>i. m AND push_bit i 1 \<noteq> 0) [0..<7]"

text \<open>The inner loop's \<^verbatim>\<open>sum\<close>; \<open>None\<close> is \<^verbatim>\<open>NaN\<close>.\<close>

definition mask_sum :: "real list \<Rightarrow> nat \<Rightarrow> real option" where
  "mask_sum vector m =
    foldl (\<lambda>acc i. (case (acc, num_at vector i) of (Some a, Some x) \<Rightarrow> Some (a + x) | _ \<Rightarrow> None))
      (Some 0) (mask_bits m)"

definition zariskiCoverings :: "string list \<Rightarrow> real list \<Rightarrow> cover list" where
  "zariskiCoverings labels vector =
    (let threshold = 8 / 10 in
     concat (map (\<lambda>m.
       (case mask_sum vector m of
          None \<Rightarrow> []
        | Some s \<Rightarrow>
            if s \<ge> threshold
            then [\<lparr>cover_mask = m, cover_indices = map (\<lambda>i. i + 1) (mask_bits m), cover_sum = s,
                   cover_labels = map (\<lambda>i. js_index (map Some labels) (int i)) (mask_bits m)\<rparr>]
            else [])) [1..<128]))"

record classification =
  dominant :: int
  label :: "string option"
  vector :: "real list"
  rawVector :: "real list"
  avgEmbedding :: "real list"
  cohomologyClass :: nat
  zariskiCoverings_length :: nat
  confidence :: "real option"
  chunksProcessed :: nat

text \<open>
  \<^verbatim>\<open>classifyText\<close> returns its result or error, the worker's state after it (it fills an
  empty prototype cache) and the chunks warned about on the console.
\<close>

definition classifyText ::
  "worker \<Rightarrow> string \<Rightarrow> options \<Rightarrow> (error + classification) \<times> worker \<times> string list" where
  "classifyText w text opts =
    (case embedder w of
       None \<Rightarrow> (Inl EmbedderNotInitialized, w, [])
     | Some emb \<Rightarrow>
        (case (case prototypeEmbeddings w of None \<Rightarrow> updatePrototypeEmbeddings w | Some _ \<Rightarrow> (Inr (), w)) of
           (Inl e, w') \<Rightarrow> (Inl e, w', [])
         | (Inr _, w') \<Rightarrow>
            (case embed_chunks emb (chunker opts text) (replicate 384 0) 0 [] of
               (summed, validChunks, warned) \<Rightarrow>
                 if validChunks = 0 then (Inl NoValidChunks, w', warned)
                 else
                   (case prototypeEmbeddings w' of
                      None \<Rightarrow> (Inl TypeError, w', warned)
                    | Some protoEmbs \<Rightarrow>
                       (let avg = map (\<lambda>x. x / real validChunks) summed;
                            raw = map (\<lambda>protoEmb. cosineSimilarity avg protoEmb) protoEmbs;
                            vec = softmax_vector raw;
                            maxScore = Math_max vec;
                            dom = (case maxScore of None \<Rightarrow> 0 | Some m \<Rightarrow> indexOf vec m + 1)
                        in (Inr \<lparr> dominant = dom,
                                 label = js_index (map Some (currentLabels w')) (dom - 1),
                                 vector = vec,
                                 rawVector = raw,
                                 avgEmbedding = avg,
                                 cohomologyClass = computeCohomologyClass vec,
                                 zariskiCoverings_length = length (zariskiCoverings (currentLabels w') vec),
                                 confidence = maxScore,
                                 chunksProcessed = validChunks \<rparr>, w', warned))))))"

subsection \<open>The message handler, case set-labels\<close>

datatype response =
  LabelsUpdated "string list" "string list"
    \<comment> \<open>\<^verbatim>\<open>{ type: "labels-updated", labels: currentLabels, prototypes: prototypes.slice(1) }\<close>\<close>

text \<open>
  \<open>labels\<close> and \<open>protos\<close> are \<^verbatim>\<open>data.labels\<close> and \<^verbatim>\<open>data.prototypes\<close>, \<open>None\<close> when
  absent. An error thrown in the case is caught by the handler and posted as an error
  message (\<open>Inl\<close>).
\<close>

definition onmessage_set_labels ::
  "worker \<Rightarrow> string list option \<Rightarrow> string list option \<Rightarrow> (error + response) \<times> worker" where
  "onmessage_set_labels w labels protos =
    (case labels of
       None \<Rightarrow> (Inl LabelsNotSeven, w)
     | Some ls \<Rightarrow>
        if length ls = 7 then
          (let w1 = w\<lparr>currentLabels := ls\<rparr> in
           (case (case protos of
                    None \<Rightarrow> (Inr (), w1)
                  | Some ps \<Rightarrow>
                      if length ps = 8 then updatePrototypeEmbeddings (w1\<lparr>prototypes := ps\<rparr>)
                      else (Inr (), w1)) of
              (Inl e, w2) \<Rightarrow> (Inl e, w2)
            | (Inr _, w2) \<Rightarrow> (Inr (LabelsUpdated (currentLabels w2) (drop 1 (prototypes w2))), w2)))
        else (Inl LabelsNotSeven, w))"

subsection \<open>Notions of the specification\<close>

text \<open>
  The transition of the propagator in the specification's words: with
  \<open>(tableSign, tableTarget)\<close> the table's entry for the current symbol and the input,
  the new state is \<open>(sign * tableSign, tableTarget)\<close>.
\<close>

definition table_step :: "int \<times> int \<Rightarrow> int \<Rightarrow> int \<times> int" where
  "table_step st n =
    (case cell octTable (snd st) n of
       Inr (Some (tableSign, tableTarget)) \<Rightarrow> (fst st * tableSign, tableTarget)
     | _ \<Rightarrow> st)"

text \<open>The final (sign, symbol) of a propagation, or its error.\<close>

definition outcome :: "error + propagation \<Rightarrow> error + (int \<times> int)" where
  "outcome r = (case r of Inl e \<Rightarrow> Inl e | Inr p \<Rightarrow> Inr (finalSign p, finalDimension p))"

text \<open>A table all of whose entries carry a sign in \<open>{-1, +1}\<close>.\<close>

definition signs_ok :: "table \<Rightarrow> bool" where
  "signs_ok t =
    (\<forall>row \<in> set t. \<forall>r. row = Some r \<longrightarrow>
       (\<forall>e \<in> set r. \<forall>x. e = Some x \<longrightarrow> fst x = 1 \<or> fst x = -1))"

text \<open>The uniform probability vector.\<close>

definition uniform7 :: "real list" where
  "uniform7 = [1/7, 1/7, 1/7, 1/7, 1/7, 1/7, 1/7]"

text \<open>
  The chunks that count as valid: trimmed length at least 10 and an embedding returned.
\<close>

definition valid_chunks :: "embedder \<Rightarrow> string list \<Rightarrow> string list" where
  "valid_chunks emb chunks =
    filter (\<lambda>c. 10 \<le> length (trim c) \<and> emb (trim c) \<noteq> None) chunks"

definition failed_chunks :: "embedder \<Rightarrow> string list \<Rightarrow> string list" where
  "failed_chunks emb chunks =
    filter (\<lambda>c. 10 \<le> length (trim c) \<and> emb (trim c) = None) chunks"

section \<open>Properties\<close>

subsection \<open>The propagation table\<close>

lemma int_1_7: "(1::int) \<le> c \<Longrightarrow> c \<le> 7 \<Longrightarrow> c = 1 \<or> c = 2 \<or> c = 3 \<or> c = 4 \<or> c = 5 \<or> c = 6 \<or> c = 7"
  by arith

lemma cell_octTable_row:
  "cell octTable 1 j = Inr (js_index [None, Some (-1,0), Some (1,4), Some (1,7), Some (-1,2), Some (1,6), Some (-1,5), Some (-1,3)] j)"
  "cell octTable 2 j = Inr (js_index [None, Some (-1,4), Some (-1,0), Some (1,5), Some (1,1), Some (-1,3), Some (1,7), Some (-1,6)] j)"
  "cell octTable 3 j = Inr (js_index [None, Some (-1,7), Some (-1,5), Some (-1,0), Some (1,6), Some (1,2), Some (-1,4), Some (1,1)] j)"
  "cell octTable 4 j = Inr (js_index [None, Some (1,2), Some (-1,1), Some (-1,6), Some (-1,0), Some (1,7), Some (1,3), Some (-1,5)] j)"
  "cell octTable 5 j = Inr (js_index [None, Some (-1,6), Some (1,3), Some (-1,2), Some (-1,7), Some (-1,0), Some (1,1), Some (1,4)] j)"
  "cell octTable 6 j = Inr (js_index [None, Some (1,5), Some (-1,7), Some (1,4), Some (-1,3), Some (-1,1), Some (-1,0), Some (1,2)] j)"
  "cell octTable 7 j = Inr (js_index [None, Some (1,3), Some (1,6), Some (-1,1), Some (1,5), Some (-1,4), Some (-1,2), Some (-1,0)] j)"
  by (simp_all add: cell_def octTable_def js_index_def)

lemma cell_octTable_0: "cell octTable 0 j = Inl TypeError"
  by (simp add: cell_def octTable_def js_index_def)

lemma js_index_8:
  "js_index [x0, x1, x2, x3, x4, x5, x6, x7] 1 = x1"
  "js_index [x0, x1, x2, x3, x4, x5, x6, x7] 2 = x2"
  "js_index [x0, x1, x2, x3, x4, x5, x6, x7] 3 = x3"
  "js_index [x0, x1, x2, x3, x4, x5, x6, x7] 4 = x4"
  "js_index [x0, x1, x2, x3, x4, x5, x6, x7] 5 = x5"
  "js_index [x0, x1, x2, x3, x4, x5, x6, x7] 6 = x6"
  "js_index [x0, x1, x2, x3, x4, x5, x6, x7] 7 = x7"
  by (simp_all add: js_index_def)

lemma cell_octTable_in:
  assumes "1 \<le> c" "c \<le> 7" "1 \<le> n" "n \<le> 7"
  shows "\<exists>s t. cell octTable c n = Inr (Some (s, t)) \<and> (s = 1 \<or> s = -1)
     \<and> (t = 0 \<longleftrightarrow> c = n) \<and> 0 \<le> t \<and> t \<le> 7"
proof -
  from int_1_7[OF assms(1,2)] int_1_7[OF assms(3,4)] show ?thesis
    by (elim disjE) (simp_all add: cell_octTable_row js_index_8)
qed

text \<open>
  Claim C9. The fixed table \<open>octTable\<close> is antisymmetric and self-annihilating: for all
  \<open>i\<close>, \<open>j\<close> in 1..7 with \<open>i \<noteq> j\<close> the entries \<open>octTable[i][j]\<close> and \<open>octTable[j][i]\<close>
  have the same target index and opposite signs, and every diagonal entry
  \<open>octTable[i][i]\<close> is \<open>(-1, 0)\<close>.
\<close>

theorem octTable_antisymmetric:
  "\<forall>i\<in>{1..7}. \<forall>j\<in>{1..7}.
     (i \<noteq> j \<longrightarrow> (\<exists>s k. cell octTable i j = Inr (Some (s, k)) \<and> cell octTable j i = Inr (Some (- s, k))))
     \<and> cell octTable i i = Inr (Some (-1, 0))"
proof (intro ballI)
  fix i j :: int assume "i \<in> {1..7}" "j \<in> {1..7}"
  then have i: "1 \<le> i" "i \<le> 7" and j: "1 \<le> j" "j \<le> 7" by simp_all
  from int_1_7[OF i] int_1_7[OF j]
  show "(i \<noteq> j \<longrightarrow> (\<exists>s k. cell octTable i j = Inr (Some (s, k)) \<and> cell octTable j i = Inr (Some (- s, k))))
     \<and> cell octTable i i = Inr (Some (-1, 0))"
    by (elim disjE) (simp_all add: cell_octTable_row js_index_8)
qed

theorem octTable_antisymmetric_witness:
  "(1::int) \<in> {1..7} \<and> (2::int) \<in> {1..7} \<and> (1::int) \<noteq> 2
   \<and> (\<exists>s k. cell octTable 1 2 = Inr (Some (s, k)) \<and> cell octTable 2 1 = Inr (Some (- s, k)))
   \<and> cell octTable 1 1 = Inr (Some (-1, 0))"
proof -
  have a: "(1::int) \<in> {1..7}" and b: "(2::int) \<in> {1..7}" by simp_all
  from octTable_antisymmetric[rule_format, OF a b] a b show ?thesis by simp
qed

subsection \<open>The Fano check\<close>

lemma js_index_Some_in: "js_index xs i = Some x \<Longrightarrow> Some x \<in> set xs"
proof -
  assume a: "js_index xs i = Some x"
  then have "nat i < length xs" "xs ! nat i = Some x"
    by (auto simp: js_index_def split: if_splits)
  then show ?thesis by (metis nth_mem)
qed

lemma cell_sign:
  assumes "signs_ok t" "cell t a b = Inr (Some x)"
  shows "fst x = 1 \<or> fst x = -1"
proof -
  from assms(2) obtain row where r: "js_index t a = Some row" "js_index row b = Some x"
    by (auto simp: cell_def split: option.splits)
  from js_index_Some_in[OF r(1)] js_index_Some_in[OF r(2)] assms(1)
  show ?thesis unfolding signs_ok_def by blast
qed

lemma cycle_step_no_warning:
  assumes "signs_ok t" "cycle_step t cyc acc = Inr acc'"
  shows "acc' = acc"
proof -
  obtain a b c where cyc: "cyc = (a, b, c)" by (cases cyc) auto
  show ?thesis
  proof (rule ccontr)
    assume neq: "acc' \<noteq> acc"
    with assms(2) obtain x y z where
      c: "cell t a b = Inr (Some x)" "cell t b c = Inr (Some y)" "cell t c a = Inr (Some z)"
      and p: "fst x * fst y * fst z \<noteq> -1" "fst x * fst y * fst z \<noteq> 1"
      by (auto simp: cycle_step_def cyc Let_def split: sum.splits option.splits if_splits)
    from cell_sign[OF assms(1) c(1)] cell_sign[OF assms(1) c(2)] cell_sign[OF assms(1) c(3)] p
    show False by auto
  qed
qed

lemma cycle_loop_no_warning:
  "signs_ok t \<Longrightarrow> cycle_loop t cycles acc = Inr acc' \<Longrightarrow> acc' = acc"
proof (induction cycles arbitrary: acc)
  case Nil
  then show ?case by simp
next
  case (Cons cyc cycles)
  from Cons.prems(2) obtain acc1 where 1: "cycle_step t cyc acc = Inr acc1"
    and 2: "cycle_loop t cycles acc1 = Inr acc'"
    by (auto split: sum.splits)
  from cycle_step_no_warning[OF Cons.prems(1) 1] Cons.IH[OF Cons.prems(1) 2]
  show ?case by simp
qed

lemma anti_step_warnings:
  "anti_step t p acc = Inr acc' \<Longrightarrow> \<forall>w\<in>set (snd acc). \<exists>i j. w = AntiCommutativityFails i j
    \<Longrightarrow> \<forall>w\<in>set (snd acc'). \<exists>i j. w = AntiCommutativityFails i j"
  by (auto simp: anti_step_def split: sum.splits option.splits if_splits)

lemma anti_loop_warnings_gen:
  "anti_loop t ps acc = Inr acc' \<Longrightarrow> \<forall>w\<in>set (snd acc). \<exists>i j. w = AntiCommutativityFails i j
    \<Longrightarrow> \<forall>w\<in>set (snd acc'). \<exists>i j. w = AntiCommutativityFails i j"
proof (induction ps arbitrary: acc)
  case Nil
  then show ?case by simp
next
  case (Cons p ps)
  from Cons.prems(1) obtain acc1 where 1: "anti_step t p acc = Inr acc1"
    and 2: "anti_loop t ps acc1 = Inr acc'"
    by (auto split: sum.splits)
  from Cons.IH[OF 2 anti_step_warnings[OF 1 Cons.prems(2)]] show ?case .
qed

lemma anti_loop_warnings:
  "anti_loop t ps (True, []) = Inr acc' \<Longrightarrow> \<forall>w\<in>set (snd acc'). \<exists>i j. w = AntiCommutativityFails i j"
  using anti_loop_warnings_gen[of t ps "(True, [])" acc'] by simp

lemma signs_ok_octTable: "signs_ok octTable"
  by (simp add: signs_ok_def octTable_def)

lemma verifyFanoStructure_octTable: "verifyFanoStructure octTable = Inr (True, [])"
  by code_simp

text \<open>
  Claim C10. The cycle part of \<open>verifyFanoStructure\<close> can never report a violation: for
  every table whose entries carry signs in \<open>{-1, +1}\<close>, the product of the three signs
  around a cycle is \<open>-1\<close> or \<open>+1\<close>, so the loop over the cycles returns the flag and
  the warnings it was given, whatever the list of cycles, and every warning of
  \<open>verifyFanoStructure\<close> comes from the anti-commutativity check.
\<close>

theorem fano_cycle_check_never_warns:
  assumes "signs_ok t"
  shows "(\<forall>a b c x y z. cell t a b = Inr (Some x) \<and> cell t b c = Inr (Some y) \<and> cell t c a = Inr (Some z)
            \<longrightarrow> fst x * fst y * fst z = -1 \<or> fst x * fst y * fst z = 1)
       \<and> (\<forall>cycles acc acc'. cycle_loop t cycles acc = Inr acc' \<longrightarrow> acc' = acc)
       \<and> (\<forall>valid ws. verifyFanoStructure t = Inr (valid, ws) \<longrightarrow>
             (\<forall>w\<in>set ws. \<exists>i j. w = AntiCommutativityFails i j))"
proof (intro conjI allI impI)
  fix a b c x y z
  assume "cell t a b = Inr (Some x) \<and> cell t b c = Inr (Some y) \<and> cell t c a = Inr (Some z)"
  then show "fst x * fst y * fst z = -1 \<or> fst x * fst y * fst z = 1"
    using cell_sign[OF assms, of a b x] cell_sign[OF assms, of b c y] cell_sign[OF assms, of c a z]
    by auto
next
  fix cycles acc acc'
  assume "cycle_loop t cycles acc = Inr acc'"
  then show "acc' = acc" by (rule cycle_loop_no_warning[OF assms])
next
  fix valid ws
  assume v: "verifyFanoStructure t = Inr (valid, ws)"
  then obtain acc where a: "anti_loop t anti_pairs (True, []) = Inr acc"
    and c: "cycle_loop t fanoCycles acc = Inr (valid, ws)"
    by (auto simp: verifyFanoStructure_def split: sum.splits)
  from cycle_loop_no_warning[OF assms c] have "acc = (valid, ws)" by simp
  with anti_loop_warnings[OF a] show "\<forall>w\<in>set ws. \<exists>i j. w = AntiCommutativityFails i j"
    by simp
qed

theorem fano_cycle_check_never_warns_witness:
  "signs_ok octTable
   \<and> cycle_loop octTable fanoCycles (True, []) = Inr (True, [])
   \<and> verifyFanoStructure octTable = Inr (True, [])"
proof -
  have c: "cycle_loop octTable fanoCycles (True, []) = Inr (True, [])"
    by (simp add: fanoCycles_def cycle_step_def cell_octTable_row js_index_8)
  from fano_cycle_check_never_warns[OF signs_ok_octTable] c
  have "(True, []) = (True, ([]::warning list))" by blast
  with signs_ok_octTable c verifyFanoStructure_octTable show ?thesis by simp
qed

subsection \<open>Propagation\<close>

lemma table_step_in:
  assumes "1 \<le> snd acc" "snd acc \<le> 7" "1 \<le> n" "n \<le> 7"
  shows "\<exists>s t. cell octTable (snd acc) n = Inr (Some (s, t)) \<and> table_step acc n = (fst acc * s, t)
     \<and> 0 \<le> t \<and> t \<le> 7"
  using cell_octTable_in[OF assms] by (auto simp: table_step_def)

lemma propagate_loop_sound:
  "0 \<le> snd acc \<Longrightarrow> snd acc \<le> 7 \<Longrightarrow>
   (\<exists>tr'. propagate_loop v i chain acc tr = Inr (acc', tr')) \<longleftrightarrow>
     (acc' = foldl table_step acc chain \<and> (\<forall>n\<in>set chain. 1 \<le> n \<and> n \<le> 7) \<and>
      (\<forall>k<length chain. snd (foldl table_step acc (take k chain)) \<noteq> 0))"
proof (induction chain arbitrary: acc i tr)
  case Nil
  then show ?case by auto
next
  case (Cons n ns)
  show ?case
  proof (cases "n < 1 \<or> n > 7")
    case True
    then show ?thesis by auto
  next
    case inr: False
    show ?thesis
    proof (cases "snd acc = 0")
      case True
      then show ?thesis using inr by (auto simp: cell_octTable_0)
    next
      case False
      with Cons.prems have c: "1 \<le> snd acc" "snd acc \<le> 7" by auto
      from inr have n: "1 \<le> n" "n \<le> 7" by auto
      from table_step_in[OF c n] obtain s t where
        st: "cell octTable (snd acc) n = Inr (Some (s, t))" "table_step acc n = (fst acc * s, t)"
            "0 \<le> t" "t \<le> 7" by blast
      have IH: "(\<exists>tr'. propagate_loop v (i + 1) ns (fst acc * s, t) tr2 = Inr (acc', tr')) \<longleftrightarrow>
        (acc' = foldl table_step (fst acc * s, t) ns \<and> (\<forall>n\<in>set ns. 1 \<le> n \<and> n \<le> 7) \<and>
        (\<forall>k<length ns. snd (foldl table_step (fst acc * s, t) (take k ns)) \<noteq> 0))" for tr2
        using Cons.IH[of "(fst acc * s, t)" "i + 1" tr2] st(3,4) by simp
      show ?thesis
        using inr False st(2) IH
        by (simp add: st(1) Let_def All_less_Suc2 del: propagate_loop.simps(2) add: propagate_loop.simps(2)[of v i n ns acc tr])
    qed
  qed
qed

lemma propagate_loop_append:
  "propagate_loop v i (xs @ ys) acc tr =
    (case propagate_loop v i xs acc tr of
       Inl e \<Rightarrow> Inl e
     | Inr (acc', tr') \<Rightarrow> propagate_loop v (i + length xs) ys acc' tr')"
  by (induction xs arbitrary: i acc tr) (auto simp: Let_def split: sum.splits option.splits)

lemma propagate_1_2_3:
  "propagateNarrative (currentLabels initial_worker) 1 [2, 3] False =
     Inr \<lparr>finalSign = -1, finalDimension = 6, finalLabel = ''Third-Eye'', steps = None\<rparr>"
  by (simp add: propagateNarrative_def cell_octTable_row js_index_8 Let_def label_or_Real_def
        initial_worker_def js_index_def)

text \<open>
  Claim C7, as the code has it. For every start symbol in 1..7 and every chain,
  \<open>propagateNarrative\<close> returns a result if and only if every chain element is in 1..7
  and the current symbol is never 0 when a chain element is consumed (symbol 0 is the
  target of the diagonal entries, reached when the input repeats the current symbol, and
  has no row in the table). So it fails whenever some chain element is outside 1..7,
  and it also fails on chains within 1..7 that pass through symbol 0 before their last
  element. When it returns, the final (sign, symbol) is the fold of the transition
  \<open>(sign * tableSign, tableTarget)\<close> over the chain, from \<open>(+1, startSymbol)\<close>. When the
  first element outside 1..7 comes after a prefix that is consumed without failure, the
  error is the invalid-dimension error for that element.
\<close>

theorem propagateNarrative_returns_iff:
  assumes "1 \<le> s" and "s \<le> 7"
  shows "((\<exists>r. propagateNarrative labels s chain verbose = Inr r) \<longleftrightarrow>
            (\<forall>n\<in>set chain. 1 \<le> n \<and> n \<le> 7) \<and>
            (\<forall>k<length chain. snd (foldl table_step (1, s) (take k chain)) \<noteq> 0))
       \<and> (\<forall>r. propagateNarrative labels s chain verbose = Inr r \<longrightarrow>
            (finalSign r, finalDimension r) = foldl table_step (1, s) chain)
       \<and> (\<forall>pre n post. chain = pre @ n # post \<and> (n < 1 \<or> 7 < n) \<and>
            (\<forall>m\<in>set pre. 1 \<le> m \<and> m \<le> 7) \<and>
            (\<forall>k<length pre. snd (foldl table_step (1, s) (take k pre)) \<noteq> 0) \<longrightarrow>
            propagateNarrative labels s chain verbose = Inl (InvalidDimension n))"
proof -
  let ?tr0 = "if verbose then [\<lparr>step_no = 0, step_sign = 1, step_dimension = s\<rparr>] else []"
  have s: "0 \<le> snd (1::int, s)" "snd (1::int, s) \<le> 7" using assms by simp_all
  note snd = propagate_loop_sound[OF s, of verbose 0 chain ?tr0]
  have A: "(\<exists>r. propagateNarrative labels s chain verbose = Inr r) \<longleftrightarrow>
            (\<forall>n\<in>set chain. 1 \<le> n \<and> n \<le> 7) \<and>
            (\<forall>k<length chain. snd (foldl table_step (1, s) (take k chain)) \<noteq> 0)"
  proof
    assume "\<exists>r. propagateNarrative labels s chain verbose = Inr r"
    then obtain acc' tr' where "propagate_loop verbose 0 chain (1, s) ?tr0 = Inr (acc', tr')"
      by (auto simp: propagateNarrative_def split: sum.splits)
    with snd[of acc'] show "(\<forall>n\<in>set chain. 1 \<le> n \<and> n \<le> 7) \<and>
            (\<forall>k<length chain. snd (foldl table_step (1, s) (take k chain)) \<noteq> 0)" by blast
  next
    assume "(\<forall>n\<in>set chain. 1 \<le> n \<and> n \<le> 7) \<and>
            (\<forall>k<length chain. snd (foldl table_step (1, s) (take k chain)) \<noteq> 0)"
    with snd[of "foldl table_step (1, s) chain"] obtain tr' where
      "propagate_loop verbose 0 chain (1, s) ?tr0 = Inr (foldl table_step (1, s) chain, tr')" by blast
    then show "\<exists>r. propagateNarrative labels s chain verbose = Inr r"
      by (simp add: propagateNarrative_def)
  qed
  have B: "(finalSign r, finalDimension r) = foldl table_step (1, s) chain"
    if "propagateNarrative labels s chain verbose = Inr r" for r
  proof -
    from that obtain acc' tr' where l: "propagate_loop verbose 0 chain (1, s) ?tr0 = Inr (acc', tr')"
      and r: "finalSign r = fst acc'" "finalDimension r = snd acc'"
      by (auto simp: propagateNarrative_def split: sum.splits)
    from snd[of acc'] l have "acc' = foldl table_step (1, s) chain" by blast
    with r show ?thesis by (metis prod.collapse)
  qed
  have C: "propagateNarrative labels s chain verbose = Inl (InvalidDimension n)"
    if "chain = pre @ n # post" "n < 1 \<or> 7 < n" "\<forall>m\<in>set pre. 1 \<le> m \<and> m \<le> 7"
       "\<forall>k<length pre. snd (foldl table_step (1, s) (take k pre)) \<noteq> 0" for pre n post
  proof -
    from propagate_loop_sound[OF s, of verbose 0 pre ?tr0 "foldl table_step (1, s) pre"] that(3,4)
    obtain tr' where "propagate_loop verbose 0 pre (1, s) ?tr0 = Inr (foldl table_step (1, s) pre, tr')"
      by blast
    then have "propagate_loop verbose 0 chain (1, s) ?tr0 = Inl (InvalidDimension n)"
      using that(2) by (simp add: that(1) propagate_loop_append)
    then show ?thesis by (simp add: propagateNarrative_def)
  qed
  from A B C show ?thesis by blast
qed

theorem propagateNarrative_returns_iff_witness:
  "(1::int) \<le> 1 \<and> (1::int) \<le> 7
   \<and> propagateNarrative (currentLabels initial_worker) 1 [2, 3] False =
       Inr \<lparr>finalSign = -1, finalDimension = 6, finalLabel = ''Third-Eye'', steps = None\<rparr>
   \<and> foldl table_step (1, 1) [2, 3] = (-1, 6)
   \<and> snd (foldl table_step (1, 1) (take 0 [2, 3])) \<noteq> 0
   \<and> snd (foldl table_step (1, 1) (take 1 [2, 3])) \<noteq> 0
   \<and> propagateNarrative (currentLabels initial_worker) 1 [2, 9, 3] False = Inl (InvalidDimension 9)"
proof -
  have h: "(1::int) \<le> 1" "(1::int) \<le> 7" by simp_all
  note t = propagateNarrative_returns_iff[OF h, of "currentLabels initial_worker" _ False]
  from t[of "[2, 3]"] propagate_1_2_3
  have 1: "foldl table_step (1, 1) [2, 3] = (-1, 6)"
    and 2: "\<forall>k<length [2, 3::int]. snd (foldl table_step (1, 1) (take k [2, 3])) \<noteq> 0"
    by auto
  have 20: "snd (foldl table_step (1, 1) (take 0 [2, 3])) \<noteq> 0"
    using 2[rule_format, of 0] by simp
  have 21: "snd (foldl table_step (1, 1) (take 1 [2, 3])) \<noteq> 0"
    using 2[rule_format, of 1] by simp
  have pre: "\<forall>m\<in>set [2::int]. 1 \<le> m \<and> m \<le> 7" by simp
  have nz: "\<forall>k<length [2::int]. snd (foldl table_step (1, 1) (take k [2])) \<noteq> 0" by simp
  from t[of "[2, 9, 3]"]
  have "\<forall>pre n post. [2, 9, 3] = pre @ n # post \<and> (n < 1 \<or> 7 < n) \<and>
            (\<forall>m\<in>set pre. 1 \<le> m \<and> m \<le> 7) \<and>
            (\<forall>k<length pre. snd (foldl table_step (1, 1) (take k pre)) \<noteq> 0) \<longrightarrow>
            propagateNarrative (currentLabels initial_worker) 1 [2, 9, 3] False = Inl (InvalidDimension n)"
    by blast
  from this[rule_format, of "[2]" 9 "[3]"] pre nz
  have 3: "propagateNarrative (currentLabels initial_worker) 1 [2, 9, 3] False = Inl (InvalidDimension 9)"
    by simp
  from h propagate_1_2_3 1 20 21 3 show ?thesis by blast
qed

text \<open>
  The claim as first stated (every chain within 1..7 returns a result) fails from start
  symbol 1 on the chain \<open>[1, 2]\<close>: the first step reaches symbol 0, and the second
  reads the missing row 0.
\<close>

theorem propagate_reaches_scalar_counterexample:
  "(1::int) \<in> {1..7} \<and> set [1, 2::int] \<subseteq> {1..7}
   \<and> propagateNarrative (currentLabels initial_worker) 1 [1, 2] False = Inl TypeError"
  by (simp add: propagateNarrative_def cell_octTable_row cell_octTable_0 js_index_8 Let_def)

text \<open>
  Claim C8, as the code has it. For every start symbol \<open>s\<close> and all symbols \<open>a\<close>, \<open>b\<close> in
  1..7 with \<open>a \<noteq> s\<close>, propagating \<open>[a]\<close> from \<open>s\<close> returns some \<open>(sign1, k)\<close> with \<open>k\<close> in
  1..7, propagating \<open>[b]\<close> from \<open>k\<close> returns some \<open>(sign2, k')\<close>, and propagating the chain
  \<open>[a, b]\<close> from \<open>s\<close> returns \<open>(sign1 * sign2, k')\<close>. When \<open>a = s\<close>, propagating \<open>[a]\<close> from
  \<open>s\<close> returns \<open>(-1, 0)\<close>, and neither the chain \<open>[a, b]\<close> from \<open>s\<close> nor \<open>[b]\<close> from symbol
  0 returns a result. In both cases the outcome of the chain is the outcome of the two
  single steps composed, a failure of either step being the failure of the chain.
\<close>

theorem propagate_composition:
  assumes "1 \<le> s" "s \<le> 7" "1 \<le> a" "a \<le> 7" "1 \<le> b" "b \<le> 7"
  shows "(a \<noteq> s \<longrightarrow>
            (\<exists>sign1 k sign2 k'. 1 \<le> k \<and> k \<le> 7 \<and>
               outcome (propagateNarrative labels s [a] verbose) = Inr (sign1, k) \<and>
               outcome (propagateNarrative labels k [b] verbose) = Inr (sign2, k') \<and>
               outcome (propagateNarrative labels s [a, b] verbose) = Inr (sign1 * sign2, k')))
       \<and> (a = s \<longrightarrow>
            outcome (propagateNarrative labels s [a] verbose) = Inr (-1, 0) \<and>
            isl (propagateNarrative labels s [a, b] verbose) \<and>
            isl (propagateNarrative labels 0 [b] verbose))
       \<and> outcome (propagateNarrative labels s [a, b] verbose) =
          (case outcome (propagateNarrative labels s [a] verbose) of
             Inl e \<Rightarrow> Inl e
           | Inr (sign1, k) \<Rightarrow>
               (case outcome (propagateNarrative labels k [b] verbose) of
                  Inl e \<Rightarrow> Inl e
                | Inr (sign2, k') \<Rightarrow> Inr (sign1 * sign2, k')))"
proof -
  from cell_octTable_in[OF assms(1-4)] obtain s1 k where
    1: "cell octTable s a = Inr (Some (s1, k))" "s1 = 1 \<or> s1 = -1" "k = 0 \<longleftrightarrow> s = a"
       "0 \<le> k" "k \<le> 7" by blast
  show ?thesis
  proof (cases "s = a")
    case True
    with 1(3) have k0: "k = 0" by simp
    from cell_octTable_in[OF assms(1,2) assms(1,2)] True 1(1)
    have s1: "s1 = -1"
      using int_1_7[OF assms(1,2)] by (auto simp: cell_octTable_row js_index_8)
    show ?thesis using assms 1(1) True k0 s1
      by (simp add: outcome_def propagateNarrative_def cell_octTable_0 Let_def)
  next
    case False
    with 1 have k: "1 \<le> k" "k \<le> 7" by auto
    from cell_octTable_in[OF k assms(5,6)] obtain s2 k2 where
      2: "cell octTable k b = Inr (Some (s2, k2))" by blast
    have a: "outcome (propagateNarrative labels s [a] verbose) = Inr (s1, k)"
      using assms 1(1) by (simp add: outcome_def propagateNarrative_def Let_def)
    have b: "outcome (propagateNarrative labels k [b] verbose) = Inr (s2, k2)"
      using assms 2 by (simp add: outcome_def propagateNarrative_def Let_def)
    have ab: "outcome (propagateNarrative labels s [a, b] verbose) = Inr (s1 * s2, k2)"
      using assms 1(1) 2 by (simp add: outcome_def propagateNarrative_def Let_def)
    from False k a b ab show ?thesis by auto
  qed
qed

theorem propagate_composition_witness:
  "(1::int) \<le> 1 \<and> (1::int) \<le> 7 \<and> (1::int) \<le> 2 \<and> (2::int) \<le> 7 \<and> (1::int) \<le> 3 \<and> (3::int) \<le> 7
   \<and> (2::int) \<noteq> 1
   \<and> outcome (propagateNarrative (currentLabels initial_worker) 1 [2] False) = Inr (1, 4)
   \<and> outcome (propagateNarrative (currentLabels initial_worker) 4 [3] False) = Inr (-1, 6)
   \<and> outcome (propagateNarrative (currentLabels initial_worker) 1 [2, 3] False) = Inr (1 * -1, 6)
   \<and> outcome (propagateNarrative (currentLabels initial_worker) 1 [1] False) = Inr (-1, 0)
   \<and> isl (propagateNarrative (currentLabels initial_worker) 1 [1, 3] False)
   \<and> isl (propagateNarrative (currentLabels initial_worker) 0 [3] False)"
proof -
  have a: "outcome (propagateNarrative (currentLabels initial_worker) 1 [2] False) = Inr (1, 4)"
    by (simp add: outcome_def propagateNarrative_def cell_octTable_row js_index_8 Let_def)
  have b: "outcome (propagateNarrative (currentLabels initial_worker) 4 [3] False) = Inr (-1, 6)"
    by (simp add: outcome_def propagateNarrative_def cell_octTable_row js_index_8 Let_def)
  from propagate_composition[of 1 2 3 "currentLabels initial_worker" False] a b
  have ab: "outcome (propagateNarrative (currentLabels initial_worker) 1 [2, 3] False) = Inr (1 * -1, 6)"
    by simp
  from propagate_composition[of 1 1 3 "currentLabels initial_worker" False]
  have d: "outcome (propagateNarrative (currentLabels initial_worker) 1 [1] False) = Inr (-1, 0)
      \<and> isl (propagateNarrative (currentLabels initial_worker) 1 [1, 3] False)
      \<and> isl (propagateNarrative (currentLabels initial_worker) 0 [3] False)"
    by simp
  from a b ab d show ?thesis by simp
qed

text \<open>
  The claim as first stated covers \<open>a = s\<close> too. From start symbol 2 the chain \<open>[2, 3]\<close>
  has no final (sign, symbol): its first step reaches \<open>(-1, 0)\<close>, and neither the chain
  nor the propagation of \<open>[3]\<close> from symbol 0 returns a result.
\<close>

theorem propagate_composition_counterexample:
  "(2::int) \<in> {1..7} \<and> (3::int) \<in> {1..7}
   \<and> outcome (propagateNarrative (currentLabels initial_worker) 2 [2] False) = Inr (-1, 0)
   \<and> propagateNarrative (currentLabels initial_worker) 2 [2, 3] False = Inl TypeError
   \<and> propagateNarrative (currentLabels initial_worker) 0 [3] False = Inl TypeError"
  by (simp add: outcome_def propagateNarrative_def cell_octTable_row cell_octTable_0 js_index_8 Let_def)

subsection \<open>The chunker\<close>

lemma chunk_loop_inv:
  assumes "\<And>s p. s \<in> set ss \<Longrightarrow> p = [] \<or> int (length p) < minC \<Longrightarrow> p @ s \<in> A"
    and "\<And>c. int (length c) \<le> maxC \<Longrightarrow> c \<in> A"
    and "cur \<in> A" and "set chunks \<subseteq> A"
  shows "set (chunk_loop maxC minC ss cur chunks) \<subseteq> A"
  using assms
proof (induction ss arbitrary: cur chunks)
  case Nil
  then show ?case by simp
next
  case (Cons s ss)
  have hd: "p @ s \<in> A" if "p = [] \<or> int (length p) < minC" for p
    using Cons.prems(1)[of s p] that by simp
  have step: "set (chunk_loop maxC minC ss cur' chunks') \<subseteq> A"
    if "cur' \<in> A" "set chunks' \<subseteq> A" for cur' chunks'
  proof (rule Cons.IH)
    show "p @ s' \<in> A" if "s' \<in> set ss" "p = [] \<or> int (length p) < minC" for s' p
      using Cons.prems(1)[of s' p] that by simp
    show "c \<in> A" if "int (length c) \<le> maxC" for c
      using Cons.prems(2) that .
    show "cur' \<in> A" by fact
    show "set chunks' \<subseteq> A" by fact
  qed
  show ?case
  proof (cases "int (length (cur @ s)) > maxC")
    case over: True
    show ?thesis
    proof (cases "int (length cur) \<ge> minC")
      case True
      have "s \<in> A" using hd[of "[]"] by simp
      moreover have "set (chunks @ [cur]) \<subseteq> A" using Cons.prems(3,4) by simp
      ultimately have "set (chunk_loop maxC minC ss s (chunks @ [cur])) \<subseteq> A" by (rule step)
      then show ?thesis using over True by simp
    next
      case False
      then have "cur @ s \<in> A" using hd[of cur] by simp
      then have "set (chunk_loop maxC minC ss (cur @ s) chunks) \<subseteq> A"
        using Cons.prems(4) by (rule step)
      then show ?thesis using over False by simp
    qed
  next
    case False
    then have "cur @ s \<in> A" using Cons.prems(2)[of "cur @ s"] by simp
    then have "set (chunk_loop maxC minC ss (cur @ s) chunks) \<subseteq> A"
      using Cons.prems(4) by (rule step)
    then show ?thesis using False by simp
  qed
qed

lemma concat_chunk_loop:
  "concat (chunk_loop maxC minC ss cur chunks) = concat chunks @ cur @ concat ss"
  by (induction ss arbitrary: cur chunks) auto

text \<open>
  Claim C4, as the code has it. For every text and every pair of bounds with a
  non-negative maxChunkSize, every chunk emitted has at most maxChunkSize characters, or
  is a single sentence, or is an accumulated prefix shorter than minChunkSize followed
  by one sentence (an under-sized chunk is merged forward even when that exceeds
  maxChunkSize). No sentence is truncated: the chunks concatenate to the concatenation
  of the sentences.
\<close>

theorem chunker_bound:
  assumes "0 \<le> or_default (maxChunkSize opts) 512"
  shows "(\<forall>c\<in>set (chunker opts text).
            int (length c) \<le> or_default (maxChunkSize opts) 512 \<or>
            (\<exists>p s. c = p @ s \<and> s \<in> set (sentences_of text) \<and>
                   (p = [] \<or> int (length p) < or_default (minChunkSize opts) 100)))
       \<and> concat (chunker opts text) = concat (sentences_of text)"
proof -
  define maxC where "maxC = or_default (maxChunkSize opts) 512"
  define minC where "minC = or_default (minChunkSize opts) 100"
  define A where "A = {c. int (length c) \<le> maxC \<or>
            (\<exists>p s. c = p @ s \<and> s \<in> set (sentences_of text) \<and> (p = [] \<or> int (length p) < minC))}"
  have "set (chunk_loop maxC minC (sentences_of text) [] []) \<subseteq> A"
  proof (rule chunk_loop_inv)
    show "p @ s \<in> A" if "s \<in> set (sentences_of text)" "p = [] \<or> int (length p) < minC" for s p
      unfolding A_def using that by blast
    show "c \<in> A" if "int (length c) \<le> maxC" for c
      unfolding A_def using that by blast
    show "[] \<in> A" unfolding A_def using assms by (simp add: maxC_def)
    show "set [] \<subseteq> A" by simp
  qed
  then have "\<forall>c\<in>set (chunker opts text). c \<in> A"
    by (auto simp: chunker_def maxC_def minC_def)
  then show ?thesis
    unfolding A_def maxC_def minC_def by (simp add: chunker_def concat_chunk_loop)
qed

theorem chunker_bound_witness:
  "0 \<le> or_default (maxChunkSize \<lparr>maxChunkSize = Some 20, minChunkSize = Some 10\<rparr>) 512
   \<and> chunker \<lparr>maxChunkSize = Some 20, minChunkSize = Some 10\<rparr> ''Hi. This is a sentence.''
        = [''Hi. This is a sentence.'']
   \<and> (int (length ''Hi. This is a sentence.'') \<le> 20 \<or>
        (\<exists>p s. ''Hi. This is a sentence.'' = p @ s \<and> s \<in> set (sentences_of ''Hi. This is a sentence.'') \<and>
               (p = [] \<or> int (length p) < 10)))
   \<and> concat (chunker \<lparr>maxChunkSize = Some 20, minChunkSize = Some 10\<rparr> ''Hi. This is a sentence.'')
        = concat (sentences_of ''Hi. This is a sentence.'')"
proof -
  have h: "0 \<le> or_default (maxChunkSize \<lparr>maxChunkSize = Some 20, minChunkSize = Some 10\<rparr>) 512"
    by (simp add: or_default_def)
  have c: "chunker \<lparr>maxChunkSize = Some 20, minChunkSize = Some 10\<rparr> ''Hi. This is a sentence.''
        = [''Hi. This is a sentence.'']" by code_simp
  from chunker_bound[OF h, of "''Hi. This is a sentence.''"]
  have "(int (length ''Hi. This is a sentence.'') \<le> 20 \<or>
        (\<exists>p s. ''Hi. This is a sentence.'' = p @ s \<and> s \<in> set (sentences_of ''Hi. This is a sentence.'') \<and>
               (p = [] \<or> int (length p) < 10)))
     \<and> concat (chunker \<lparr>maxChunkSize = Some 20, minChunkSize = Some 10\<rparr> ''Hi. This is a sentence.'')
        = concat (sentences_of ''Hi. This is a sentence.'')"
    unfolding c by (simp add: or_default_def)
  with h c show ?thesis by blast
qed

text \<open>
  The claim as first stated fails for the bounds (20, 10) on a text of two sentences of
  3 and 20 characters: the only chunk has 23 characters, and neither sentence exceeds
  20.
\<close>

theorem chunk_exceeds_max_counterexample:
  "chunker \<lparr>maxChunkSize = Some 20, minChunkSize = Some 10\<rparr> ''Hi. This is a sentence.''
      = [''Hi. This is a sentence.'']
   \<and> sentences_of ''Hi. This is a sentence.'' = [''Hi.'', '' This is a sentence.'']
   \<and> length ''Hi. This is a sentence.'' = 23
   \<and> length ''Hi.'' = 3 \<and> length '' This is a sentence.'' = 20"
  by code_simp

text \<open>A text without any sentence terminator is kept whole, by \<^verbatim>\<open>|| [text]\<close>.\<close>

lemma chunker_keeps_unterminated_text:
  "chunker \<lparr>maxChunkSize = None, minChunkSize = None\<rparr> ''Trailing words'' = [''Trailing words'']"
  by code_simp

text \<open>
  Claim C2 says that the chunks concatenate to the original text, no character being
  dropped. On the text below, with the default bounds, the words after the last
  sentence terminator are in no chunk.
\<close>

theorem chunker_drops_trailing_text:
  "concat (chunker \<lparr>maxChunkSize = None, minChunkSize = None\<rparr> ''Hello world. Trailing words'')
     = ''Hello world.''"
  by code_simp

subsection \<open>The vectorizer\<close>

lemma embed_chunks_counts:
  "snd (embed_chunks emb cs avg n warned) =
     (n + length (valid_chunks emb cs), warned @ failed_chunks emb cs)"
  by (induction cs arbitrary: avg n warned)
     (auto simp: valid_chunks_def failed_chunks_def split: option.splits)

lemma foldl_add_sum_list: "foldl (\<lambda>a b. a + b) (a::real) xs = a + sum_list xs"
  by (induction xs arbitrary: a) simp_all

lemma sum_list_divide: "sum_list (map (\<lambda>x. x / (s::real)) xs) = sum_list xs / s"
  by (induction xs) (simp_all add: add_divide_distrib)

lemma sum_list_exp_pos: "xs \<noteq> [] \<Longrightarrow> 0 < sum_list (map (\<lambda>x. exp (max 0 x * 5)) (xs::real list))"
proof (induction xs)
  case Nil
  then show ?case by simp
next
  case (Cons x xs)
  have "0 \<le> sum_list (map (\<lambda>x. exp (max 0 x * 5)) xs)"
    by (rule sum_list_nonneg) auto
  moreover have "0 < exp (max 0 x * 5)" by (rule exp_gt_zero)
  ultimately show ?case by (simp add: add_pos_nonneg del: exp_gt_zero)
qed

lemma softmax_vector_eq:
  "softmax_vector raw =
     map (\<lambda>x. exp (max 0 x * 5) / sum_list (map (\<lambda>y. exp (max 0 y * 5)) raw)) raw"
  by (simp add: softmax_vector_def Let_def foldl_add_sum_list comp_def)

lemma length_softmax_vector: "length (softmax_vector raw) = length raw"
  by (simp add: softmax_vector_def Let_def)

lemma softmax_vector_nonneg: "p \<in> set (softmax_vector raw) \<Longrightarrow> 0 < p"
proof -
  assume p: "p \<in> set (softmax_vector raw)"
  then have ne: "raw \<noteq> []" by (auto simp: softmax_vector_eq)
  from p obtain x where "p = exp (max 0 x * 5) / sum_list (map (\<lambda>y. exp (max 0 y * 5)) raw)"
    by (auto simp: softmax_vector_eq)
  with sum_list_exp_pos[OF ne] show ?thesis by simp
qed

lemma softmax_vector_sum: "raw \<noteq> [] \<Longrightarrow> sum_list (softmax_vector raw) = 1"
proof -
  assume ne: "raw \<noteq> []"
  let ?s = "sum_list (map (\<lambda>y. exp (max 0 y * 5)) raw)"
  have "sum_list (softmax_vector raw) = sum_list (map (\<lambda>x. x / ?s) (map (\<lambda>y. exp (max 0 y * 5)) raw))"
    by (simp add: softmax_vector_eq comp_def)
  also have "\<dots> = ?s / ?s" by (rule sum_list_divide)
  also have "\<dots> = 1" using sum_list_exp_pos[OF ne] by simp
  finally show ?thesis .
qed

lemma classifyText_cached:
  assumes "embedder w = Some emb" and "prototypeEmbeddings w = Some pe"
  shows "classifyText w text opts =
    (case embed_chunks emb (chunker opts text) (replicate 384 0) 0 [] of
       (summed, validChunks, warned) \<Rightarrow>
         if validChunks = 0 then (Inl NoValidChunks, w, warned)
         else
           (let avg = map (\<lambda>x. x / real validChunks) summed;
                raw = map (\<lambda>protoEmb. cosineSimilarity avg protoEmb) pe;
                vec = softmax_vector raw;
                maxScore = Math_max vec;
                dom = (case maxScore of None \<Rightarrow> 0 | Some m \<Rightarrow> indexOf vec m + 1)
            in (Inr \<lparr> dominant = dom,
                     label = js_index (map Some (currentLabels w)) (dom - 1),
                     vector = vec,
                     rawVector = raw,
                     avgEmbedding = avg,
                     cohomologyClass = computeCohomologyClass vec,
                     zariskiCoverings_length = length (zariskiCoverings (currentLabels w) vec),
                     confidence = maxScore,
                     chunksProcessed = validChunks \<rparr>, w, warned)))"
  using assms by (simp add: classifyText_def split: prod.splits)

lemma classifyText_returns:
  assumes "embedder w = Some emb" and "prototypeEmbeddings w = Some pe"
    and "valid_chunks emb (chunker opts text) \<noteq> []"
  shows "\<exists>r. fst (classifyText w text opts) = Inr r \<and> length (vector r) = length pe"
proof -
  obtain summed n warned where
    e: "embed_chunks emb (chunker opts text) (replicate 384 0) 0 [] = (summed, n, warned)"
    by (metis prod_cases3)
  from embed_chunks_counts[of emb "chunker opts text" "replicate 384 0" 0 "[]"] e assms(3)
  have n: "n \<noteq> 0" by simp
  show ?thesis
    unfolding classifyText_cached[OF assms(1,2)] e
    using n by (simp add: Let_def length_softmax_vector)
qed

lemma chunker_two_sentences:
  "chunker \<lparr>maxChunkSize = Some 20, minChunkSize = Some 5\<rparr> ''First sentence here. Second sentence ok.''
     = [''First sentence here.'', '' Second sentence ok.'']"
  by code_simp

lemma trim_examples:
  "trim ''First sentence here.'' = ''First sentence here.''"
  "trim '' Second sentence ok.'' = ''Second sentence ok.''"
  by code_simp+

lemma chunker_plain: "chunker \<lparr>maxChunkSize = None, minChunkSize = None\<rparr> ''A plain sentence of text.''
     = [''A plain sentence of text.'']"
  by code_simp

lemma trim_plain: "trim ''A plain sentence of text.'' = ''A plain sentence of text.''"
  by code_simp

text \<open>
  Claim C5. With the embedder initialised and the prototype embeddings cached,
  \<open>classifyText\<close> fails with the no-valid-chunks error (and so returns no vector)
  exactly when no chunk of trimmed length at least 10 yields an embedding. A chunk on
  which the embedder fails is skipped with a warning: if at least one chunk embeds, the
  request returns a result whose \<open>chunksProcessed\<close> is the number of chunks that
  embedded, and the chunks warned about are those of trimmed length at least 10 on
  which the embedder failed.
\<close>

theorem classifyText_no_valid_chunks:
  assumes "embedder w = Some emb" and "prototypeEmbeddings w = Some pe"
  shows "(fst (classifyText w text opts) = Inl NoValidChunks \<longleftrightarrow>
            valid_chunks emb (chunker opts text) = [])
       \<and> (valid_chunks emb (chunker opts text) \<noteq> [] \<longrightarrow>
            (\<exists>r. fst (classifyText w text opts) = Inr r \<and>
                 chunksProcessed r = length (valid_chunks emb (chunker opts text))))
       \<and> snd (snd (classifyText w text opts)) = failed_chunks emb (chunker opts text)"
proof -
  obtain summed n warned where
    e: "embed_chunks emb (chunker opts text) (replicate 384 0) 0 [] = (summed, n, warned)"
    by (metis prod_cases3)
  from embed_chunks_counts[of emb "chunker opts text" "replicate 384 0" 0 "[]"] e
  have n: "n = length (valid_chunks emb (chunker opts text))"
    and wd: "warned = failed_chunks emb (chunker opts text)" by simp_all
  show ?thesis
    unfolding classifyText_cached[OF assms] e
    by (simp add: Let_def n wd)
qed

theorem classifyText_no_valid_chunks_witness:
  "embedder (initial_worker\<lparr>embedder := Some (\<lambda>s. if s = ''First sentence here.'' then None else Some (replicate 384 0)),
        prototypeEmbeddings := Some (replicate 7 (replicate 384 0))\<rparr>)
      = Some (\<lambda>s. if s = ''First sentence here.'' then None else Some (replicate 384 0))
   \<and> prototypeEmbeddings (initial_worker\<lparr>embedder := Some (\<lambda>s. if s = ''First sentence here.'' then None else Some (replicate 384 0)),
        prototypeEmbeddings := Some (replicate 7 (replicate 384 0))\<rparr>)
      = Some (replicate 7 (replicate 384 0))
   \<and> (\<exists>r. fst (classifyText
          (initial_worker\<lparr>embedder := Some (\<lambda>s. if s = ''First sentence here.'' then None else Some (replicate 384 0)),
             prototypeEmbeddings := Some (replicate 7 (replicate 384 0))\<rparr>)
          ''First sentence here. Second sentence ok.''
          \<lparr>maxChunkSize = Some 20, minChunkSize = Some 5\<rparr>) = Inr r \<and> chunksProcessed r = 1)
   \<and> snd (snd (classifyText
          (initial_worker\<lparr>embedder := Some (\<lambda>s. if s = ''First sentence here.'' then None else Some (replicate 384 0)),
             prototypeEmbeddings := Some (replicate 7 (replicate 384 0))\<rparr>)
          ''First sentence here. Second sentence ok.''
          \<lparr>maxChunkSize = Some 20, minChunkSize = Some 5\<rparr>)) = [''First sentence here.'']"
proof -
  define emb :: embedder where
    "emb = (\<lambda>s. if s = ''First sentence here.'' then None else Some (replicate 384 0))"
  define w where
    "w = initial_worker\<lparr>embedder := Some emb, prototypeEmbeddings := Some (replicate 7 (replicate 384 0))\<rparr>"
  have e: "embedder w = Some emb" and p: "prototypeEmbeddings w = Some (replicate 7 (replicate 384 0))"
    by (simp_all add: w_def)
  have v: "valid_chunks emb [''First sentence here.'', '' Second sentence ok.''] = ['' Second sentence ok.'']"
    by (simp add: valid_chunks_def trim_examples emb_def)
  have f: "failed_chunks emb [''First sentence here.'', '' Second sentence ok.''] = [''First sentence here.'']"
    by (simp add: failed_chunks_def trim_examples emb_def)
  from classifyText_no_valid_chunks[OF e p, of "''First sentence here. Second sentence ok.''"
      "\<lparr>maxChunkSize = Some 20, minChunkSize = Some 5\<rparr>"]
  have "(\<exists>r. fst (classifyText w ''First sentence here. Second sentence ok.''
          \<lparr>maxChunkSize = Some 20, minChunkSize = Some 5\<rparr>) = Inr r \<and> chunksProcessed r = 1)
     \<and> snd (snd (classifyText w ''First sentence here. Second sentence ok.''
          \<lparr>maxChunkSize = Some 20, minChunkSize = Some 5\<rparr>)) = [''First sentence here.'']"
    unfolding chunker_two_sentences v f by simp
  with e p show ?thesis unfolding w_def emb_def by simp
qed

text \<open>
  Claim C1. Whenever \<open>classifyText\<close> returns a result with a 7-entry probability
  vector, that vector is the rectified temperature-5 softmax of the raw scores: entry
  \<open>i\<close> is \<open>exp (max 0 rawScore\<^sub>i * 5)\<close> divided by the sum of those exponentials, the
  raw scores being the cosine similarities of the averaged embedding with the cached
  prototype embeddings. So every entry is non-negative and the entries sum to 1 within
  \<open>10\<^sup>-\<^sup>6\<close> (over the reals, exactly).
\<close>

theorem classifyText_softmax:
  assumes "fst (classifyText w text opts) = Inr r" and "length (vector r) = 7"
  shows "vector r = map (\<lambda>x. exp (max 0 x * 5) / sum_list (map (\<lambda>y. exp (max 0 y * 5)) (rawVector r))) (rawVector r)
       \<and> (\<exists>pe. prototypeEmbeddings (fst (snd (classifyText w text opts))) = Some pe \<and>
               rawVector r = map (cosineSimilarity (avgEmbedding r)) pe)
       \<and> (\<forall>p\<in>set (vector r). 0 \<le> p)
       \<and> \<bar>sum_list (vector r) - 1\<bar> \<le> 1 / 10 ^ 6"
proof -
  from assms(1) obtain pe where
    v: "vector r = softmax_vector (rawVector r)"
    and pe: "prototypeEmbeddings (fst (snd (classifyText w text opts))) = Some pe"
    and raw: "rawVector r = map (cosineSimilarity (avgEmbedding r)) pe"
    by (auto simp: classifyText_def Let_def split: option.splits prod.splits sum.splits if_splits)
  from assms(2) v have ne: "rawVector r \<noteq> []" by (auto simp: softmax_vector_eq)
  have "\<forall>p\<in>set (vector r). 0 \<le> p" using softmax_vector_nonneg[of _ "rawVector r"] v by force
  moreover have "sum_list (vector r) = 1" using softmax_vector_sum[OF ne] v by simp
  ultimately show ?thesis using v pe raw softmax_vector_eq[of "rawVector r"] by simp
qed

theorem classifyText_softmax_witness:
  "\<exists>r. fst (classifyText
          (initial_worker\<lparr>embedder := Some (\<lambda>s. Some (replicate 384 0)),
             prototypeEmbeddings := Some (replicate 7 (replicate 384 0))\<rparr>)
          ''A plain sentence of text.'' \<lparr>maxChunkSize = None, minChunkSize = None\<rparr>) = Inr r
     \<and> length (vector r) = 7
     \<and> vector r = map (\<lambda>x. exp (max 0 x * 5) / sum_list (map (\<lambda>y. exp (max 0 y * 5)) (rawVector r))) (rawVector r)
     \<and> (\<forall>p\<in>set (vector r). 0 \<le> p)
     \<and> \<bar>sum_list (vector r) - 1\<bar> \<le> 1 / 10 ^ 6"
proof -
  define w where
    "w = initial_worker\<lparr>embedder := Some (\<lambda>s. Some (replicate 384 0)),
             prototypeEmbeddings := Some (replicate 7 (replicate 384 0))\<rparr>"
  have e: "embedder w = Some (\<lambda>s. Some (replicate 384 0))"
    and p: "prototypeEmbeddings w = Some (replicate 7 (replicate 384 0))"
    by (simp_all add: w_def)
  have v: "valid_chunks (\<lambda>s. Some (replicate 384 0))
      (chunker \<lparr>maxChunkSize = None, minChunkSize = None\<rparr> ''A plain sentence of text.'') \<noteq> []"
    by (simp add: chunker_plain valid_chunks_def trim_plain)
  from classifyText_returns[OF e p v] obtain r where
    r: "fst (classifyText w ''A plain sentence of text.'' \<lparr>maxChunkSize = None, minChunkSize = None\<rparr>) = Inr r"
    and l: "length (vector r) = 7" by auto
  from classifyText_softmax[OF r l] r l show ?thesis unfolding w_def by blast
qed

subsection \<open>The diagnostics\<close>

lemma zariski_uniform7_masks:
  "map cover_mask (zariskiCoverings ls uniform7) = [63, 95, 111, 119, 123, 125, 126, 127]"
  by code_simp

lemma cohomology_uniform7: "computeCohomologyClass uniform7 = 0"
  by (simp add: computeCohomologyClass_def uniform7_def num_at_def upt_rec Let_def)

text \<open>
  Claim C3, as the code has it. On the uniform vector \<open>[1/7, ..., 1/7]\<close> the coherence
  flag \<open>computeCohomologyClass\<close> is 0 and the covering count is 8: the seven subsets of
  six indices have mass \<open>6/7 \<ge> 0.8\<close>, and so has the full set.
\<close>

theorem diagnostics_uniform:
  "computeCohomologyClass uniform7 = 0
   \<and> length (zariskiCoverings labels uniform7) = 8
   \<and> map cover_mask (zariskiCoverings labels uniform7) = [63, 95, 111, 119, 123, 125, 126, 127]"
proof -
  have "length (map cover_mask (zariskiCoverings labels uniform7)) = 8"
    unfolding zariski_uniform7_masks by simp
  then have "length (zariskiCoverings labels uniform7) = 8" by simp
  with cohomology_uniform7 zariski_uniform7_masks[of labels] show ?thesis by blast
qed

text \<open>The claim as first stated gives the covering count as 0.\<close>

theorem covering_count_uniform_counterexample:
  "\<not> (computeCohomologyClass uniform7 = 0
       \<and> length (zariskiCoverings (currentLabels initial_worker) uniform7) = 0)"
proof -
  have "length (map cover_mask (zariskiCoverings (currentLabels initial_worker) uniform7)) = 8"
    unfolding zariski_uniform7_masks by simp
  then show ?thesis by simp
qed

subsection \<open>The configuration request\<close>

text \<open>
  Claim C6, as the code has it. A set-labels request whose label list is absent or does
  not have exactly 7 entries is rejected with an error and nothing of it is applied: the
  worker's state (labels, prototype descriptions, cached prototype embeddings) is
  unchanged. A request with 7 labels whose prototype list is absent or does not have
  exactly 8 entries (entry 0 is unused) is not rejected: the labels are replaced, the
  prototype list is ignored, and the prototype descriptions and the cached embeddings
  stay as they were.
\<close>

theorem set_labels_rejection:
  "(labels = None \<or> (\<exists>ls. labels = Some ls \<and> length ls \<noteq> 7) \<longrightarrow>
      onmessage_set_labels w labels protos = (Inl LabelsNotSeven, w))
   \<and> (\<forall>ls. labels = Some ls \<and> length ls = 7 \<and>
            (protos = None \<or> (\<exists>ps. protos = Some ps \<and> length ps \<noteq> 8)) \<longrightarrow>
         onmessage_set_labels w labels protos =
           (Inr (LabelsUpdated ls (drop 1 (prototypes w))), w\<lparr>currentLabels := ls\<rparr>))"
  by (auto simp: onmessage_set_labels_def Let_def)

theorem set_labels_rejection_witness:
  "onmessage_set_labels initial_worker (Some [''a'', ''b'', ''c'', ''d'', ''e'', ''f'']) None
     = (Inl LabelsNotSeven, initial_worker)
   \<and> onmessage_set_labels initial_worker (Some [''a'', ''b'', ''c'', ''d'', ''e'', ''f'', ''g''])
        (Some [''p'', ''q'', ''r'', ''s'', ''t'', ''u''])
     = (Inr (LabelsUpdated [''a'', ''b'', ''c'', ''d'', ''e'', ''f'', ''g''] (drop 1 (prototypes initial_worker))),
        initial_worker\<lparr>currentLabels := [''a'', ''b'', ''c'', ''d'', ''e'', ''f'', ''g'']\<rparr>)"
  using set_labels_rejection[of "Some [''a'', ''b'', ''c'', ''d'', ''e'', ''f'']" initial_worker None]
    set_labels_rejection[of "Some [''a'', ''b'', ''c'', ''d'', ''e'', ''f'', ''g'']" initial_worker
       "Some [''p'', ''q'', ''r'', ''s'', ''t'', ''u'']"]
  by simp

text \<open>
  The claim as first stated fails on a request with 7 labels and 6 prototype
  descriptions: it is answered with \<open>labels-updated\<close> and the labels are replaced.
\<close>

theorem set_labels_partial_counterexample:
  "length [''p'', ''q'', ''r'', ''s'', ''t'', ''u''] = 6
   \<and> fst (onmessage_set_labels initial_worker (Some [''a'', ''b'', ''c'', ''d'', ''e'', ''f'', ''g''])
        (Some [''p'', ''q'', ''r'', ''s'', ''t'', ''u'']))
      = Inr (LabelsUpdated [''a'', ''b'', ''c'', ''d'', ''e'', ''f'', ''g''] (drop 1 (prototypes initial_worker)))
   \<and> currentLabels (snd (onmessage_set_labels initial_worker (Some [''a'', ''b'', ''c'', ''d'', ''e'', ''f'', ''g''])
        (Some [''p'', ''q'', ''r'', ''s'', ''t'', ''u''])))
      = [''a'', ''b'', ''c'', ''d'', ''e'', ''f'', ''g'']
   \<and> currentLabels initial_worker \<noteq> [''a'', ''b'', ''c'', ''d'', ''e'', ''f'', ''g'']"
  by (simp add: onmessage_set_labels_def initial_worker_def)

end
